theory Spec2Isabelle
  imports Complex_Main "HOL-Library.Multiset"
begin

section \<open>Numbers\<close>

text \<open>
  The scripts compute with Python floats.  Durations, cut points and segment lengths are
  modelled as real numbers: arithmetic is exact, and rounding, overflow and underflow of
  IEEE doubles are outside the model.  The non-finite floats (inf, -inf, nan), which
  Python's \<^verbatim>\<open>float()\<close> also produces from the words "inf", "infinity" and "nan", are
  lumped into the one value \<open>NonFinite\<close>.
\<close>

datatype pyfloat = Fin real | NonFinite

text \<open>Float floor division \<^verbatim>\<open>a // b\<close> and modulo \<^verbatim>\<open>a % b\<close> for a positive divisor.\<close>

definition py_floordiv :: "real \<Rightarrow> real \<Rightarrow> real" where
  "py_floordiv a b = of_int \<lfloor>a / b\<rfloor>"

definition py_mod :: "real \<Rightarrow> real \<Rightarrow> real" where
  "py_mod a b = a - b * of_int \<lfloor>a / b\<rfloor>"

text \<open>\<^verbatim>\<open>int(x)\<close> truncates towards zero.\<close>

definition py_int :: "real \<Rightarrow> int" where
  "py_int x = (if 0 \<le> x then \<lfloor>x\<rfloor> else \<lceil>x\<rceil>)"

text \<open>\<^verbatim>\<open>range(n)\<close>: empty when \<open>n \<le> 0\<close>.\<close>

definition py_range :: "int \<Rightarrow> nat list" where
  "py_range n = [0..<nat n]"

section \<open>Segment jobs\<close>

text \<open>
  One call of \<^verbatim>\<open>split_video_segment\<close> / \<^verbatim>\<open>process_segment\<close>: the number that
  appears in the output file name, the seek offset \<^verbatim>\<open>start\<close> and the bound
  \<^verbatim>\<open>duration\<close> passed to the encoder.
\<close>

record job =
  job_index :: nat
  job_start :: real
  job_duration :: real

text \<open>
  \<^verbatim>\<open>segment_count = int(duration // 60) + (1 if duration % 60 > 0 else 0)\<close>,
  the same line in both scripts.
\<close>

definition segment_count :: "real \<Rightarrow> int" where
  "segment_count duration =
     py_int (py_floordiv duration 60) + (if py_mod duration 60 > 0 then 1 else 0)"

text \<open>
  The loop body of Yt_Split_FullScreen.py:
  \<^verbatim>\<open>start = i * 60; seg_duration = min(60, duration - start)\<close>.
\<close>

definition fs_fixed_job :: "real \<Rightarrow> nat \<Rightarrow> job" where
  "fs_fixed_job duration i =
     (let start = real i * 60;
          seg_duration = min 60 (duration - start)
      in \<lparr>job_index = i + 1, job_start = start, job_duration = seg_duration\<rparr>)"

definition fs_fixed_jobs :: "real \<Rightarrow> job list" where
  "fs_fixed_jobs duration = map (fs_fixed_job duration) (py_range (segment_count duration))"

text \<open>
  The loop body of Yt_Split_Portrait.py: \<^verbatim>\<open>start = i * 60\<close> and the constant
  \<^verbatim>\<open>duration=60\<close> in the call.
\<close>

definition pt_fixed_job :: "nat \<Rightarrow> job" where
  "pt_fixed_job i =
     (let start = real i * 60
      in \<lparr>job_index = i + 1, job_start = start, job_duration = 60\<rparr>)"

definition pt_fixed_jobs :: "real \<Rightarrow> job list" where
  "pt_fixed_jobs duration = map pt_fixed_job (py_range (segment_count duration))"

section \<open>Running the jobs\<close>

text \<open>
  What the scripts print, one constructor per \<^verbatim>\<open>print\<close> statement (the texts are not
  modelled, only which statement ran and the values it shows that matter here).
\<close>

datatype message =
    FFmpegNotFound
  | BinariesNotFound
  | ErrorGettingDuration
  | InvalidTimeFormat string
  | FFmpegError
  | ErrorProcessingSegment
  | InputFileNotFound
  | OutputDirectory
  | Processing60
  | SegmentsCreatedSuccessfully
  | SegmentSplitFailed
  | Created60 int
  | RequiresSplitTimes
  | NoValidSegments
  | CreatingCustomSegments nat
  | ProcessingSegment nat
  | ProcessingSegmentOf nat int
  | AllSegmentsCreated
  | ProcessingCompleted

text \<open>The messages that report an error (all others are progress messages).\<close>

fun is_error :: "message \<Rightarrow> bool" where
  "is_error FFmpegNotFound = True"
| "is_error BinariesNotFound = True"
| "is_error ErrorGettingDuration = True"
| "is_error (InvalidTimeFormat t) = True"
| "is_error FFmpegError = True"
| "is_error ErrorProcessingSegment = True"
| "is_error InputFileNotFound = True"
| "is_error SegmentSplitFailed = True"
| "is_error RequiresSplitTimes = True"
| "is_error NoValidSegments = True"
| "is_error m = False"

text \<open>
  A run of the external encoder: the one-shot segment muxer of the Portrait script's
  stream-copy path, or one segment job together with its \<^verbatim>\<open>-vf\<close> filter graph
  (\<open>None\<close>: \<^verbatim>\<open>-c:v copy\<close>).
\<close>

datatype invocation = SegmentCopy | Encode job "string option"

text \<open>
  Everything outside the scripts: which files exist, what the duration probe
  (\<^verbatim>\<open>ffprobe\<close> followed by \<^verbatim>\<open>float\<close>) yields, \<open>None\<close> when ffprobe exits non-zero
  or its output is no float, and whether the encoder exits with 0 on a given job.
\<close>

record world =
  ffmpeg_is_file :: bool
  ffprobe_is_file :: bool
  input_is_file :: bool
  probe :: "real option"
  encode_ok :: "job \<Rightarrow> bool"
  segmenter_ok :: bool

record outcome =
  printed :: "message list"
  invoked :: "invocation list"
  exit_code :: nat

text \<open>\<^verbatim>\<open>get_video_duration\<close>: prints and returns \<^verbatim>\<open>None\<close> when the probe fails.\<close>

definition get_video_duration :: "world \<Rightarrow> message list \<times> real option" where
  "get_video_duration w =
     (case probe w of None \<Rightarrow> ([ErrorGettingDuration], None) | Some d \<Rightarrow> ([], Some d))"

text \<open>
  A loop \<^verbatim>\<open>for ...: success = split_video_segment(...); if not success: return\<close> of the
  Portrait script.  \<open>announce\<close> is what the loop prints before the call.  The result
  says whether the loop ran to its end.
\<close>

fun run_until_failure ::
  "(job \<Rightarrow> message list) \<Rightarrow> (job \<Rightarrow> bool) \<Rightarrow> string option \<Rightarrow> job list
     \<Rightarrow> message list \<times> invocation list \<times> bool" where
  "run_until_failure announce enc vf [] = ([], [], True)"
| "run_until_failure announce enc vf (j # js) =
     (if enc j then
        (case run_until_failure announce enc vf js of
           (ms, runs, ok) \<Rightarrow> (announce j @ ms, Encode j vf # runs, ok))
      else (announce j @ [FFmpegError], [Encode j vf], False))"

text \<open>
  The loop of the FullScreen script: \<^verbatim>\<open>process_segment(...)\<close> is called as a statement,
  its result is not looked at.
\<close>

fun run_all ::
  "int \<Rightarrow> (job \<Rightarrow> bool) \<Rightarrow> string option \<Rightarrow> job list \<Rightarrow> message list \<times> invocation list" where
  "run_all n enc vf [] = ([], [])"
| "run_all n enc vf (j # js) =
     (case run_all n enc vf js of
        (ms, runs) \<Rightarrow>
          (ProcessingSegmentOf (job_index j) n
             # (if enc j then [] else [ErrorProcessingSegment]) @ ms,
           Encode j vf # runs))"

section \<open>The time parser\<close>

text \<open>
  \<^verbatim>\<open>float(s)\<close> on an ASCII string, after the grammar of the Python reference:
  surrounding whitespace is removed, then an optional sign, then "inf", "infinity" or
  "nan" in any case, or a decimal number with an optional exponent; digits may be
  grouped with single underscores.  \<open>None\<close> is \<^verbatim>\<open>ValueError\<close>.
\<close>

definition is_space :: "char \<Rightarrow> bool" where
  "is_space c = (c \<in> set [CHR '' '', CHR 0x09, CHR 0x0A, CHR 0x0B, CHR 0x0C, CHR 0x0D,
                           CHR 0x1C, CHR 0x1D, CHR 0x1E, CHR 0x1F])"

definition strip :: "string \<Rightarrow> string" where
  "strip s = rev (dropWhile is_space (rev (dropWhile is_space s)))"

definition digit_value :: "char \<Rightarrow> nat option" where
  "digit_value c =
     (let n = (of_char c :: nat) in if 48 \<le> n \<and> n \<le> 57 then Some (n - 48) else None)"

definition lower :: "char \<Rightarrow> char" where
  "lower c = (let n = (of_char c :: nat) in if 65 \<le> n \<and> n \<le> 90 then char_of (n + 32) else c)"

text \<open>\<open>digit (["_"] digit)*\<close>; the result is the digits, most significant first.\<close>

fun digitpart :: "string \<Rightarrow> nat list option" where
  "digitpart [] = None"
| "digitpart [c] = map_option (\<lambda>d. [d]) (digit_value c)"
| "digitpart (c # u # cs) =
     (case digit_value c of
        None \<Rightarrow> None
      | Some d \<Rightarrow>
          if u = CHR ''_'' then map_option ((#) d) (digitpart cs)
          else map_option ((#) d) (digitpart (u # cs)))"

definition digits_value :: "nat list \<Rightarrow> nat" where
  "digits_value ds = foldl (\<lambda>a d. 10 * a + d) 0 ds"

text \<open>\<open>[digitpart] "." digitpart | digitpart ["."]\<close>\<close>

definition mantissa :: "string \<Rightarrow> real option" where
  "mantissa s =
     (if CHR ''.'' \<in> set s then
        (let ip = takeWhile (\<lambda>c. c \<noteq> CHR ''.'') s;
             fp = tl (dropWhile (\<lambda>c. c \<noteq> CHR ''.'') s)
         in if ip = [] \<and> fp = [] then None
            else
              (case (if ip = [] then Some [] else digitpart ip,
                     if fp = [] then Some [] else digitpart fp) of
                 (Some i, Some f) \<Rightarrow>
                   Some (real (digits_value i) + real (digits_value f) / 10 ^ length f)
               | _ \<Rightarrow> None))
      else map_option (\<lambda>ds. real (digits_value ds)) (digitpart s))"

text \<open>\<open>[sign] digitpart\<close>, what follows the letter e.\<close>

definition exponent :: "string \<Rightarrow> int option" where
  "exponent s =
     (case s of
        [] \<Rightarrow> None
      | c # cs \<Rightarrow>
          if c = CHR ''+'' then map_option (\<lambda>ds. int (digits_value ds)) (digitpart cs)
          else if c = CHR ''-'' then map_option (\<lambda>ds. - int (digits_value ds)) (digitpart cs)
          else map_option (\<lambda>ds. int (digits_value ds)) (digitpart s))"

definition floatnumber :: "string \<Rightarrow> real option" where
  "floatnumber s =
     (let no_e = (\<lambda>c. c \<noteq> CHR ''e'' \<and> c \<noteq> CHR ''E'');
          m = takeWhile no_e s
      in case dropWhile no_e s of
           [] \<Rightarrow> mantissa m
         | e # ex \<Rightarrow>
             (case (mantissa m, exponent ex) of
                (Some x, Some k) \<Rightarrow>
                  Some (if 0 \<le> k then x * 10 ^ nat k else x / 10 ^ nat (- k))
              | _ \<Rightarrow> None))"

definition py_float :: "string \<Rightarrow> pyfloat option" where
  "py_float s =
     (let t = strip s;
          neg = (t \<noteq> [] \<and> hd t = CHR ''-'');
          body = (if t \<noteq> [] \<and> (hd t = CHR ''-'' \<or> hd t = CHR ''+'') then tl t else t)
      in if map lower body \<in> set [''inf'', ''infinity'', ''nan''] then Some NonFinite
         else map_option (\<lambda>x. Fin (if neg then - x else x)) (floatnumber body))"

text \<open>\<^verbatim>\<open>s.split(sep)\<close> for a one-character separator.\<close>

fun split_on :: "char \<Rightarrow> string \<Rightarrow> string list" where
  "split_on sep [] = [[]]"
| "split_on sep (c # cs) =
     (if c = sep then [] # split_on sep cs
      else (case split_on sep cs of f # fs \<Rightarrow> (c # f) # fs | [] \<Rightarrow> [[c]]))"

text \<open>Float addition and multiplication by a finite non-zero constant.\<close>

fun fl_add :: "pyfloat \<Rightarrow> pyfloat \<Rightarrow> pyfloat" where
  "fl_add (Fin a) (Fin b) = Fin (a + b)"
| "fl_add a b = NonFinite"

fun fl_scale :: "pyfloat \<Rightarrow> real \<Rightarrow> pyfloat" where
  "fl_scale (Fin a) k = Fin (a * k)"
| "fl_scale NonFinite k = NonFinite"

text \<open>
  \<^verbatim>\<open>parse_time\<close> of Yt_Split_Portrait.py.  \<open>None\<close> is its \<^verbatim>\<open>return None\<close> in the
  \<^verbatim>\<open>except ValueError\<close> branch, reached from \<^verbatim>\<open>float\<close> or from the explicit
  \<^verbatim>\<open>raise\<close>.
\<close>

definition parse_time :: "string \<Rightarrow> pyfloat option" where
  "parse_time time_str =
     (if CHR '':'' \<in> set time_str then
        (case those (map py_float (split_on CHR '':'' time_str)) of
           None \<Rightarrow> None
         | Some parts \<Rightarrow>
             if length parts = 3 then
               Some (fl_add (fl_add (fl_scale (parts ! 0) 3600) (fl_scale (parts ! 1) 60))
                            (parts ! 2))
             else if length parts = 2 then
               Some (fl_add (fl_scale (parts ! 0) 60) (parts ! 1))
             else None)
      else py_float time_str)"

section \<open>Custom split points (Yt_Split_Portrait.py)\<close>

text \<open>
  The loop over \<^verbatim>\<open>args.split_times\<close>: \<open>Inl t\<close> when \<^verbatim>\<open>parse_time(t)\<close> is the first
  to return \<^verbatim>\<open>None\<close>, and \<^verbatim>\<open>main\<close> returns there.
\<close>

fun parse_split_times :: "string list \<Rightarrow> string + pyfloat list" where
  "parse_split_times [] = Inr []"
| "parse_split_times (t # ts) =
     (case parse_time t of
        None \<Rightarrow> Inl t
      | Some parsed \<Rightarrow>
          (case parse_split_times ts of
             Inl bad \<Rightarrow> Inl bad
           | Inr split_points \<Rightarrow> Inr (parsed # split_points)))"

text \<open>The test \<^verbatim>\<open>0 < p < duration\<close>; it is false for every non-finite \<open>p\<close>.\<close>

fun strictly_inside :: "real \<Rightarrow> pyfloat \<Rightarrow> real option" where
  "strictly_inside duration (Fin p) = (if 0 < p \<and> p < duration then Some p else None)"
| "strictly_inside duration NonFinite = None"

text \<open>
  \<^verbatim>\<open>sorted([0] + [p for p in split_points if 0 < p < duration] + [duration])\<close>
\<close>

definition cut_points :: "real \<Rightarrow> pyfloat list \<Rightarrow> real list" where
  "cut_points duration split_points =
     sort ([0] @ List.map_filter (strictly_inside duration) split_points @ [duration])"

text \<open>
  The loop over adjacent pairs \<^verbatim>\<open>split_points[i], split_points[i+1]\<close>, which keeps
  \<^verbatim>\<open>(start, end - start)\<close> when \<^verbatim>\<open>end - start > 0.1\<close>.
\<close>

fun segments_of :: "real list \<Rightarrow> (real \<times> real) list" where
  "segments_of (start # stop # rest) =
     (if stop - start > 1 / 10 then [(start, stop - start)] else [])
       @ segments_of (stop # rest)"
| "segments_of ps = []"


text \<open>\<^verbatim>\<open>enumerate(segments, 1)\<close> and the call made for each pair.\<close>

definition custom_jobs :: "(real \<times> real) list \<Rightarrow> job list" where
  "custom_jobs segments =
     map (\<lambda>(idx, (start, len)). \<lparr>job_index = idx, job_start = start, job_duration = len\<rparr>)
         (zip [1..<Suc (length segments)] segments)"

section \<open>Filter graphs\<close>

text \<open>\<^verbatim>\<open>str(n)\<close> for an integer.\<close>

fun str_nat :: "nat \<Rightarrow> string" where
  "str_nat n =
     (if n < 10 then [char_of (48 + n)] else str_nat (n div 10) @ [char_of (48 + n mod 10)])"

declare str_nat.simps [simp del]

definition py_str :: "int \<Rightarrow> string" where
  "py_str i = (if i < 0 then CHR ''-'' # str_nat (nat (- i)) else str_nat (nat i))"

text \<open>\<^verbatim>\<open>sep.join(xs)\<close>\<close>

fun py_join :: "string \<Rightarrow> string list \<Rightarrow> string" where
  "py_join sep [] = []"
| "py_join sep [x] = x"
| "py_join sep (x # y # ys) = x @ sep @ py_join sep (y # ys)"

text \<open>Truth value of an optional string: \<^verbatim>\<open>None\<close> and the empty string are false.\<close>

definition truthy :: "string option \<Rightarrow> bool" where
  "truthy v = (case v of None \<Rightarrow> False | Some s \<Rightarrow> s \<noteq> [])"

text \<open>\<^verbatim>\<open>build_aspect_filter\<close> of Yt_Split_Portrait.py.\<close>

definition build_aspect_filter :: "string \<Rightarrow> string option" where
  "build_aspect_filter aspect =
     (if aspect = ''portrait'' then
        Some (''scale=1080:1920:force_original_aspect_ratio=decrease,''
              @ ''pad=1080:1920:(ow-iw)/2:(oh-ih)/2:color=black'')
      else if aspect = ''landscape'' then
        Some (''scale=1920:1080:force_original_aspect_ratio=decrease,''
              @ ''pad=1920:1080:(ow-iw)/2:(oh-ih)/2:color=black'')
      else None)"

text \<open>The parsed command line of Yt_Split_FullScreen.py.\<close>

record fs_args =
  fs_input :: string
  fs_split_option :: string
  fs_split_times :: "string list option"
  fs_output_dir :: string
  fs_aspect_mode :: string
  fs_aspect_handling :: string
  fs_background :: "string option"
  fs_text :: "string option"
  fs_text_size :: int
  fs_text_color :: "string option"
  fs_font :: "string option"

text \<open>
  \<^verbatim>\<open>build_filters\<close> in three parts, as the source is laid out: the target
  dimensions, the block "Handle aspect conversion" (\<open>None\<close> is its \<^verbatim>\<open>return None\<close>),
  and the block "Add text overlay"; then the join.
\<close>

definition target_dims :: "fs_args \<Rightarrow> int \<times> int" where
  "target_dims args = (if fs_aspect_mode args = ''portrait'' then (1080, 1920) else (1920, 1080))"

definition aspect_stages :: "fs_args \<Rightarrow> string list option" where
  "aspect_stages args =
     (let (target_width, target_height) = target_dims args;
          wh = py_str target_width @ '':'' @ py_str target_height
      in if fs_aspect_handling args = ''crop'' then
           Some [''scale='' @ wh @ '':force_original_aspect_ratio=increase'',
                 ''crop='' @ wh]
         else if fs_aspect_handling args = ''pad'' then
           (let bg_color = (if truthy (fs_background args) then the (fs_background args)
                            else ''black'')
            in Some [''scale='' @ wh @ '':force_original_aspect_ratio=decrease'',
                     ''pad='' @ wh @ '':(ow-iw)/2:(oh-ih)/2:color='' @ bg_color])
         else if fs_aspect_handling args = ''stretch'' then
           Some [''scale='' @ wh]
         else None)"

definition text_stage :: "fs_args \<Rightarrow> string list" where
  "text_stage args =
     (if truthy (fs_text args) then
        (let text_color = (if truthy (fs_text_color args) then the (fs_text_color args)
                           else if fs_background args = Some ''black'' then ''white''
                           else ''black'');
             font = (if truthy (fs_font args)
                     then '':fontfile='' @ [CHR 0x27] @ the (fs_font args) @ [CHR 0x27]
                     else [])
         in [''drawtext=text='' @ [CHR 0x27] @ the (fs_text args) @ [CHR 0x27] @ font @ '':''
             @ ''fontcolor='' @ text_color @ '':fontsize='' @ py_str (fs_text_size args) @ '':''
             @ ''x=(w-text_w)/2:y=(h-text_h)/2''])
      else [])"

definition filter_stages :: "fs_args \<Rightarrow> string list option" where
  "filter_stages args = map_option (\<lambda>filters. filters @ text_stage args) (aspect_stages args)"

definition build_filters :: "fs_args \<Rightarrow> string option" where
  "build_filters args = map_option (py_join '','') (filter_stages args)"

text \<open>
  The choice \<^verbatim>\<open>if filters: ... else: cmd += ['-c:v', 'copy']\<close> of the two segment
  functions: no filter graph and the empty one both mean stream copy.
\<close>

definition vf_option :: "string option \<Rightarrow> string option" where
  "vf_option f = (if truthy f then f else None)"

section \<open>The two main functions\<close>

definition finished :: "message list \<Rightarrow> invocation list \<Rightarrow> outcome" where
  "finished ms runs = \<lparr>printed = ms, invoked = runs, exit_code = 0\<rparr>"

text \<open>The parsed command line of Yt_Split_Portrait.py.\<close>

record pt_args =
  pt_input_video :: string
  pt_output_dir :: string
  pt_split_option :: string
  pt_split_times :: "string list option"
  pt_aspect :: string

text \<open>The part of \<^verbatim>\<open>main\<close> under "Handle 60-second split".\<close>

definition pt_fixed :: "world \<Rightarrow> pt_args \<Rightarrow> outcome" where
  "pt_fixed w args =
     (if pt_aspect args = ''original'' then
        finished [Processing60,
                  if segmenter_ok w then SegmentsCreatedSuccessfully else SegmentSplitFailed]
                 [SegmentCopy]
      else
        (case get_video_duration w of
           (pm, None) \<Rightarrow> finished (Processing60 # pm) []
         | (pm, Some duration) \<Rightarrow>
             if duration = 0 then finished (Processing60 # pm) []
             else
               (case run_until_failure (\<lambda>j. []) (encode_ok w)
                       (vf_option (build_aspect_filter (pt_aspect args)))
                       (pt_fixed_jobs duration) of
                  (ms, runs, ok) \<Rightarrow>
                    finished (Processing60 # pm @ ms
                                @ (if ok then [Created60 (segment_count duration)] else []))
                             runs)))"

text \<open>The part of \<^verbatim>\<open>main\<close> from "Handle custom split" on.\<close>

definition pt_custom :: "world \<Rightarrow> pt_args \<Rightarrow> outcome" where
  "pt_custom w args =
     (case pt_split_times args of
        None \<Rightarrow> finished [RequiresSplitTimes] []
      | Some [] \<Rightarrow> finished [RequiresSplitTimes] []
      | Some (t # ts) \<Rightarrow>
          (case parse_split_times (t # ts) of
             Inl bad \<Rightarrow> finished [InvalidTimeFormat bad] []
           | Inr split_points \<Rightarrow>
               (case get_video_duration w of
                  (pm, None) \<Rightarrow> finished pm []
                | (pm, Some duration) \<Rightarrow>
                    if duration = 0 then finished pm []
                    else
                      (let segments = segments_of (cut_points duration split_points)
                       in if segments = [] then finished (pm @ [NoValidSegments]) []
                          else
                            (case run_until_failure (\<lambda>j. [ProcessingSegment (job_index j)])
                                    (encode_ok w)
                                    (vf_option (build_aspect_filter (pt_aspect args)))
                                    (custom_jobs segments) of
                               (ms, runs, ok) \<Rightarrow>
                                 finished (pm @ CreatingCustomSegments (length segments) # ms
                                             @ (if ok then [AllSegmentsCreated] else []))
                                          runs)))))"

definition pt_main :: "world \<Rightarrow> pt_args \<Rightarrow> outcome" where
  "pt_main w args =
     (if \<not> ffmpeg_is_file w then \<lparr>printed = [FFmpegNotFound], invoked = [], exit_code = 1\<rparr>
      else if \<not> input_is_file w then finished [InputFileNotFound] []
      else if pt_split_option args = ''60'' then pt_fixed w args
      else pt_custom w args)"

text \<open>
  \<^verbatim>\<open>main\<close> of Yt_Split_FullScreen.py.  After the 60-second branch the function ends:
  the source has only the comment "Handle custom split (implementation similar to
  previous versions)" there.
\<close>

definition fs_main :: "world \<Rightarrow> fs_args \<Rightarrow> outcome" where
  "fs_main w args =
     (if \<not> (ffmpeg_is_file w \<and> ffprobe_is_file w) then
        \<lparr>printed = [BinariesNotFound], invoked = [], exit_code = 1\<rparr>
      else if \<not> input_is_file w then finished [InputFileNotFound] []
      else if fs_split_option args = ''60'' then
        (case get_video_duration w of
           (pm, None) \<Rightarrow> finished ([OutputDirectory, Processing60] @ pm) []
         | (pm, Some duration) \<Rightarrow>
             (case run_all (segment_count duration) (encode_ok w)
                     (vf_option (build_filters args)) (fs_fixed_jobs duration) of
                (ms, runs) \<Rightarrow>
                  finished ([OutputDirectory, Processing60] @ pm @ ms @ [ProcessingCompleted])
                           runs))
      else finished [OutputDirectory] [])"

text \<open>The encode jobs among the encoder runs of an outcome.\<close>

fun encode_jobs :: "invocation list \<Rightarrow> job list" where
  "encode_jobs [] = []"
| "encode_jobs (SegmentCopy # runs) = encode_jobs runs"
| "encode_jobs (Encode j vf # runs) = j # encode_jobs runs"

section \<open>Example installations and command lines\<close>

text \<open>
  An installation where both binaries and the input file exist, with a given probe
  result and encoder behaviour.
\<close>

definition ready_world :: "real option \<Rightarrow> (job \<Rightarrow> bool) \<Rightarrow> world" where
  "ready_world p enc =
     \<lparr>ffmpeg_is_file = True, ffprobe_is_file = True, input_is_file = True,
      probe = p, encode_ok = enc, segmenter_ok = True\<rparr>"

text \<open>Command lines with the defaults of the two argument parsers.\<close>

definition pt_command :: "string \<Rightarrow> string list option \<Rightarrow> string \<Rightarrow> pt_args" where
  "pt_command opt cuts aspect =
     \<lparr>pt_input_video = ''video.mp4'', pt_output_dir = ''output'', pt_split_option = opt,
      pt_split_times = cuts, pt_aspect = aspect\<rparr>"

definition fs_command :: "string \<Rightarrow> string \<Rightarrow> string \<Rightarrow> string option \<Rightarrow> fs_args" where
  "fs_command opt mode handling txt =
     \<lparr>fs_input = ''video.mp4'', fs_split_option = opt, fs_split_times = None,
      fs_output_dir = ''output'', fs_aspect_mode = mode, fs_aspect_handling = handling,
      fs_background = Some ''black'', fs_text = txt, fs_text_size = 48,
      fs_text_color = None, fs_font = None\<rparr>"

section \<open>Fixed-window planning\<close>

lemma segment_count_ceiling: "segment_count d = \<lceil>d / 60\<rceil>"
proof -
  have "py_int (of_int \<lfloor>d / 60\<rfloor>) = \<lfloor>d / 60\<rfloor>"
    by (simp add: py_int_def)
  moreover have "(py_mod d 60 > 0) = (d / 60 \<noteq> of_int \<lfloor>d / 60\<rfloor>)"
  proof -
    have "real_of_int \<lfloor>d / 60\<rfloor> \<le> d / 60" by (rule of_int_floor_le)
    then have "real_of_int \<lfloor>d / 60\<rfloor> * 60 \<le> d" by (simp add: pos_le_divide_eq)
    then show ?thesis unfolding py_mod_def by (auto simp: field_simps)
  qed
  ultimately show ?thesis
    unfolding segment_count_def py_floordiv_def by (simp add: ceiling_altdef)
qed

lemma length_fs_fixed_jobs: "length (fs_fixed_jobs d) = nat \<lceil>d / 60\<rceil>"
  by (simp add: fs_fixed_jobs_def py_range_def segment_count_ceiling)

lemma length_pt_fixed_jobs: "length (pt_fixed_jobs d) = nat \<lceil>d / 60\<rceil>"
  by (simp add: pt_fixed_jobs_def py_range_def segment_count_ceiling)

lemma nth_fs_fixed_jobs:
  "i < nat \<lceil>d / 60\<rceil> \<Longrightarrow> fs_fixed_jobs d ! i = fs_fixed_job d i"
  by (simp add: fs_fixed_jobs_def py_range_def segment_count_ceiling)

lemma nth_pt_fixed_jobs:
  "i < nat \<lceil>d / 60\<rceil> \<Longrightarrow> pt_fixed_jobs d ! i = pt_fixed_job i"
  by (simp add: pt_fixed_jobs_def py_range_def segment_count_ceiling)

lemma full_window:
  assumes "Suc i < nat \<lceil>d / 60\<rceil>"
  shows "real (Suc i) * 60 < d"
proof -
  from assms have "int (Suc i) < \<lceil>d / 60\<rceil>" by linarith
  then have "real_of_int (int (Suc i)) < d / 60" by (simp only: less_ceiling_iff)
  then show ?thesis by (simp add: pos_less_divide_eq)
qed

lemma last_window:
  assumes "0 < d" and "n = nat \<lceil>d / 60\<rceil>"
  shows "0 < n" and "d \<le> real n * 60" and "real (n - 1) * 60 < d"
proof -
  from assms(1) have c: "0 < \<lceil>d / 60\<rceil>" by simp
  with assms(2) show "0 < n" by simp
  have a: "d / 60 \<le> real_of_int \<lceil>d / 60\<rceil>" by (rule le_of_int_ceiling)
  from c assms(2) have rn: "real n = real_of_int \<lceil>d / 60\<rceil>" by simp
  from a rn show "d \<le> real n * 60" by linarith
  have b: "real_of_int \<lceil>d / 60\<rceil> - 1 < d / 60" by linarith
  from \<open>0 < n\<close> have "real (n - 1) = real n - 1" by (simp add: of_nat_diff)
  with b rn show "real (n - 1) * 60 < d" by linarith
qed

lemma sum_list_const_upt:
  "(\<And>i. i < k \<Longrightarrow> f i = c) \<Longrightarrow> sum_list (map f [0..<k]) = c * real k"
  by (induction k) (simp_all add: algebra_simps)

lemma fs_job_fields:
  "job_index (fs_fixed_job d i) = i + 1"
  "job_start (fs_fixed_job d i) = real i * 60"
  "job_duration (fs_fixed_job d i) = min 60 (d - real i * 60)"
  by (simp_all add: fs_fixed_job_def Let_def)

lemma pt_job_fields:
  "job_index (pt_fixed_job i) = i + 1"
  "job_start (pt_fixed_job i) = real i * 60"
  "job_duration (pt_fixed_job i) = 60"
  by (simp_all add: pt_fixed_job_def Let_def)

lemma fs_full_duration:
  "Suc i < nat \<lceil>d / 60\<rceil> \<Longrightarrow> job_duration (fs_fixed_job d i) = 60"
  using full_window [of i d] by (simp add: fs_job_fields)

lemma fs_last_duration:
  assumes "0 < d"
  shows "job_duration (fs_fixed_job d (nat \<lceil>d / 60\<rceil> - 1)) = d - real (nat \<lceil>d / 60\<rceil> - 1) * 60"
proof -
  define n where "n = nat \<lceil>d / 60\<rceil>"
  from last_window [OF assms n_def] have "0 < n" "d \<le> real n * 60" by simp_all
  then have "real (n - 1) = real n - 1" by (simp add: of_nat_diff)
  with \<open>d \<le> real n * 60\<close> have "d - real (n - 1) * 60 \<le> 60" by (simp add: algebra_simps)
  then show ?thesis unfolding n_def [symmetric] by (simp add: fs_job_fields)
qed

lemma fs_fixed_jobs_snoc:
  assumes "0 < d"
  shows "fs_fixed_jobs d = map (fs_fixed_job d) [0..<nat \<lceil>d / 60\<rceil> - 1] @ [fs_fixed_job d (nat \<lceil>d / 60\<rceil> - 1)]"
proof -
  define n where "n = nat \<lceil>d / 60\<rceil>"
  from last_window [OF assms n_def] have "0 < n" by simp
  then obtain m where m: "n = Suc m" by (cases n) simp_all
  show ?thesis
    unfolding fs_fixed_jobs_def py_range_def segment_count_ceiling n_def [symmetric] m by simp
qed

lemma sum_fs_fixed_jobs:
  assumes "0 < d"
  shows "sum_list (map job_duration (fs_fixed_jobs d)) = d"
proof -
  define n where "n = nat \<lceil>d / 60\<rceil>"
  have "sum_list (map (\<lambda>i. job_duration (fs_fixed_job d i)) [0..<n - 1]) = 60 * real (n - 1)"
    by (rule sum_list_const_upt) (simp add: fs_full_duration n_def)
  then show ?thesis
    using fs_last_duration [OF assms]
    by (simp add: fs_fixed_jobs_snoc [OF assms] n_def [symmetric] comp_def)
qed

lemma fs_last_is_remainder:
  assumes "0 < d" and "py_mod d 60 \<noteq> 0"
  shows "job_duration (last (fs_fixed_jobs d)) = py_mod d 60"
proof -
  have "d / 60 \<noteq> real_of_int \<lfloor>d / 60\<rfloor>"
    using assms(2) by (auto simp: py_mod_def)
  then have c: "\<lceil>d / 60\<rceil> = \<lfloor>d / 60\<rfloor> + 1" by (simp add: ceiling_altdef)
  from assms(1) have "0 \<le> \<lfloor>d / 60\<rfloor>" by simp
  with c have "nat \<lceil>d / 60\<rceil> - 1 = nat \<lfloor>d / 60\<rfloor>" by linarith
  with \<open>0 \<le> \<lfloor>d / 60\<rfloor>\<close> have "real (nat \<lceil>d / 60\<rceil> - 1) = real_of_int \<lfloor>d / 60\<rfloor>"
    by simp
  then show ?thesis
    using fs_last_duration [OF assms(1)]
    by (simp add: fs_fixed_jobs_snoc [OF assms(1)] py_mod_def)
qed

section \<open>The time parser: failure cases\<close>







section \<open>Cut points and segments\<close>








lemma set_inside:
  "set (List.map_filter (strictly_inside d) ps) = {x. Fin x \<in> set ps \<and> 0 < x \<and> x < d}"
proof (induction ps)
  case Nil
  show ?case by simp
next
  case (Cons p ps)
  then show ?case by (cases p) auto
qed

lemma count_inside:
  "0 < x \<Longrightarrow> x < d \<Longrightarrow>
   count_list (List.map_filter (strictly_inside d) ps) x = count_list ps (Fin x)"
proof (induction ps)
  case Nil
  show ?case by simp
next
  case (Cons p ps)
  then show ?case by (cases p) auto
qed

lemma sorted_cut_points: "sorted (cut_points d ps)"
  unfolding cut_points_def by (rule sorted_sort)

lemma set_cut_points:
  "set (cut_points d ps) = {0, d} \<union> {x. Fin x \<in> set ps \<and> 0 < x \<and> x < d}"
proof -
  have "set (cut_points d ps) = set ([0] @ List.map_filter (strictly_inside d) ps @ [d])"
    unfolding cut_points_def by (rule set_sort)
  then show ?thesis by (auto simp: set_inside)
qed

lemma count_cut_points:
  assumes "0 < x" "x < d"
  shows "count_list (cut_points d ps) x = count_list ps (Fin x)"
proof -
  have "count_list (cut_points d ps) x
          = count (mset ([0] @ List.map_filter (strictly_inside d) ps @ [d])) x"
    unfolding cut_points_def by (simp only: count_mset [symmetric] mset_sort)
  also have "\<dots> = count_list (List.map_filter (strictly_inside d) ps) x"
    using assms by (simp add: count_mset)
  finally show ?thesis using assms by (simp add: count_inside)
qed

lemma sorted_hd_least:
  "sorted xs \<Longrightarrow> x \<in> set xs \<Longrightarrow> \<forall>y\<in>set xs. x \<le> y \<Longrightarrow> hd xs = (x::real)"
  by (cases xs) (auto simp: antisym)

lemma sorted_last_greatest:
  "sorted xs \<Longrightarrow> x \<in> set xs \<Longrightarrow> \<forall>y\<in>set xs. y \<le> x \<Longrightarrow> last xs = (x::real)"
proof (induction xs)
  case Nil
  then show ?case by simp
next
  case (Cons a xs)
  show ?case
  proof (cases "xs = []")
    case True
    with Cons.prems show ?thesis by simp
  next
    case False
    then have "last xs \<in> set xs" by simp
    with Cons.prems have "x \<le> last xs \<or> x \<in> set xs" by auto
    moreover from Cons.prems \<open>last xs \<in> set xs\<close> have "last xs \<le> x" by auto
    ultimately have "x \<in> set xs" using \<open>last xs \<in> set xs\<close> by (auto simp: antisym)
    with Cons False show ?thesis by auto
  qed
qed

lemma cut_points_nonempty: "cut_points d ps \<noteq> []"
proof -
  have "0 \<in> set (cut_points d ps)" by (simp add: set_cut_points)
  then show ?thesis by auto
qed

lemma hd_cut_points: "0 < d \<Longrightarrow> hd (cut_points d ps) = 0"
  by (rule sorted_hd_least [OF sorted_cut_points]) (auto simp: set_cut_points)

lemma last_cut_points: "0 < d \<Longrightarrow> last (cut_points d ps) = d"
  by (rule sorted_last_greatest [OF sorted_cut_points]) (auto simp: set_cut_points)

section \<open>The job loops\<close>

lemma run_all_runs: "snd (run_all n enc vf js) = map (\<lambda>j. Encode j vf) js"
  by (induction js) (auto split: prod.splits)

lemma encode_jobs_map: "encode_jobs (map (\<lambda>j. Encode j vf) js) = js"
  by (induction js) auto

lemma run_until_failure_runs:
  "fst (snd (run_until_failure ann enc vf js))
     = map (\<lambda>j. Encode j vf) (takeWhile enc js @ take 1 (dropWhile enc js))"
  by (induction js) (auto split: prod.splits)

lemma run_until_failure_ok:
  "snd (snd (run_until_failure ann enc vf js)) = (\<forall>j\<in>set js. enc j)"
  by (induction js) (auto split: prod.splits)

lemma run_until_failure_printed:
  "\<forall>j. \<not> (\<exists>m\<in>set (ann j). is_error m) \<Longrightarrow>
   (\<exists>m\<in>set (fst (run_until_failure ann enc vf js)). is_error m) = (\<not> (\<forall>j\<in>set js. enc j))"
  by (induction js) (auto split: prod.splits)

section \<open>Claims about the fixed-window plan\<close>

lemma py_mod_less: "py_mod d 60 < 60"
proof -
  have "d / 60 < real_of_int \<lfloor>d / 60\<rfloor> + 1" by linarith
  then show ?thesis unfolding py_mod_def by linarith
qed

text \<open>
  Claim C1 (as amended).  For every probed duration \<open>D > 0\<close> both scripts plan exactly
  \<open>\<lceil>D / 60\<rceil>\<close> jobs and job \<open>i\<close> (counted from 0) starts at \<open>i * 60\<close>.  In
  Yt_Split_FullScreen.py job \<open>i\<close> has length \<open>min 60 (D - i * 60)\<close>, the lengths add up
  to \<open>D\<close>, the first job starts at 0, each job ends where the next one starts and the
  last one ends at \<open>D\<close>.  In Yt_Split_Portrait.py every job is requested with the
  constant length 60.
\<close>

theorem fixed_plan:
  assumes "0 < D"
  shows "length (fs_fixed_jobs D) = nat \<lceil>D / 60\<rceil>
       \<and> (\<forall>i < nat \<lceil>D / 60\<rceil>.
             job_start (fs_fixed_jobs D ! i) = real i * 60
           \<and> job_duration (fs_fixed_jobs D ! i) = min 60 (D - real i * 60))
       \<and> sum_list (map job_duration (fs_fixed_jobs D)) = D
       \<and> job_start (hd (fs_fixed_jobs D)) = 0
       \<and> (\<forall>i. Suc i < nat \<lceil>D / 60\<rceil> \<longrightarrow>
             job_start (fs_fixed_jobs D ! i) + job_duration (fs_fixed_jobs D ! i)
               = job_start (fs_fixed_jobs D ! Suc i))
       \<and> job_start (last (fs_fixed_jobs D)) + job_duration (last (fs_fixed_jobs D)) = D
       \<and> length (pt_fixed_jobs D) = nat \<lceil>D / 60\<rceil>
       \<and> (\<forall>i < nat \<lceil>D / 60\<rceil>.
             job_start (pt_fixed_jobs D ! i) = real i * 60
           \<and> job_duration (pt_fixed_jobs D ! i) = 60)"
proof -
  define n where "n = nat \<lceil>D / 60\<rceil>"
  from last_window [OF assms n_def] have pos: "0 < n" by simp
  have nth: "\<forall>i < n. job_start (fs_fixed_jobs D ! i) = real i * 60
                  \<and> job_duration (fs_fixed_jobs D ! i) = min 60 (D - real i * 60)"
    by (simp add: n_def nth_fs_fixed_jobs fs_job_fields)
  have first: "job_start (hd (fs_fixed_jobs D)) = 0"
  proof -
    have "fs_fixed_jobs D \<noteq> []" using pos length_fs_fixed_jobs [of D] by (auto simp: n_def)
    then have "hd (fs_fixed_jobs D) = fs_fixed_jobs D ! 0" by (simp add: hd_conv_nth)
    with nth pos show ?thesis by simp
  qed
  have chain: "\<forall>i. Suc i < n \<longrightarrow>
      job_start (fs_fixed_jobs D ! i) + job_duration (fs_fixed_jobs D ! i)
        = job_start (fs_fixed_jobs D ! Suc i)"
  proof (intro allI impI)
    fix i assume i: "Suc i < n"
    then have "job_duration (fs_fixed_jobs D ! i) = 60"
      using fs_full_duration [of i D] by (simp add: n_def nth_fs_fixed_jobs)
    with i nth show "job_start (fs_fixed_jobs D ! i) + job_duration (fs_fixed_jobs D ! i)
        = job_start (fs_fixed_jobs D ! Suc i)"
      by (simp add: algebra_simps)
  qed
  have final: "job_start (last (fs_fixed_jobs D)) + job_duration (last (fs_fixed_jobs D)) = D"
    using fs_last_duration [OF assms]
    by (simp add: fs_fixed_jobs_snoc [OF assms] fs_job_fields(2))
  have pt: "\<forall>i < n. job_start (pt_fixed_jobs D ! i) = real i * 60
                  \<and> job_duration (pt_fixed_jobs D ! i) = 60"
    by (simp add: n_def nth_pt_fixed_jobs pt_job_fields)
  show ?thesis
    using nth first chain final pt sum_fs_fixed_jobs [OF assms]
    unfolding n_def by (simp only: length_fs_fixed_jobs length_pt_fixed_jobs simp_thms)
qed

text \<open>The statement of C1 at a 125-second input.\<close>

theorem fixed_plan_witness:
  "(0::real) < 125
   \<and> length (fs_fixed_jobs 125) = 3
   \<and> job_duration (fs_fixed_jobs 125 ! 2) = 5
   \<and> sum_list (map job_duration (fs_fixed_jobs 125)) = 125
   \<and> job_duration (pt_fixed_jobs 125 ! 2) = 60"
  using fixed_plan [of 125] by simp

text \<open>
  Claim C1 as stated fails for Yt_Split_Portrait.py: at \<open>D = 90\<close> its two jobs both have
  length 60, so job 1 does not have length \<open>min 60 (90 - 60) = 30\<close> and the lengths do not
  add up to 90.
\<close>

theorem portrait_lengths_counterexample:
  "map job_duration (pt_fixed_jobs 90) = [60, 60]
   \<and> job_duration (pt_fixed_jobs 90 ! 1) \<noteq> min 60 (90 - real 1 * 60)
   \<and> sum_list (map job_duration (pt_fixed_jobs 90)) \<noteq> 90"
  by code_simp

text \<open>
  Claim C2 (as amended).  In Yt_Split_FullScreen.py, for every duration \<open>D > 0\<close> that is
  not a multiple of 60, the last job's length is the remainder \<open>D mod 60\<close>, which is less
  than 60; a 125-second input yields the three jobs \<open>(0, 60)\<close>, \<open>(60, 60)\<close>, \<open>(120, 5)\<close>.
  In Yt_Split_Portrait.py every job, the last one included, is requested with length 60.
\<close>

theorem fixed_last_segment:
  assumes "0 < D" and "py_mod D 60 \<noteq> 0"
  shows "job_duration (last (fs_fixed_jobs D)) = py_mod D 60
       \<and> job_duration (last (fs_fixed_jobs D)) < 60
       \<and> fs_fixed_jobs 125 =
           [\<lparr>job_index = 1, job_start = 0, job_duration = 60\<rparr>,
            \<lparr>job_index = 2, job_start = 60, job_duration = 60\<rparr>,
            \<lparr>job_index = 3, job_start = 120, job_duration = 5\<rparr>]
       \<and> (\<forall>j\<in>set (pt_fixed_jobs D). job_duration j = 60)"
proof -
  have "fs_fixed_jobs 125 =
           [\<lparr>job_index = 1, job_start = 0, job_duration = 60\<rparr>,
            \<lparr>job_index = 2, job_start = 60, job_duration = 60\<rparr>,
            \<lparr>job_index = 3, job_start = 120, job_duration = 5\<rparr>]"
    by code_simp
  moreover have "\<forall>j\<in>set (pt_fixed_jobs D). job_duration j = 60"
    by (auto simp: pt_fixed_jobs_def pt_job_fields)
  ultimately show ?thesis
    using fs_last_is_remainder [OF assms] py_mod_less [of D] by simp
qed

text \<open>The statement of C2 at a 125-second input.\<close>

theorem fixed_last_segment_witness:
  "(0::real) < 125 \<and> py_mod 125 60 \<noteq> 0
   \<and> job_duration (last (fs_fixed_jobs 125)) = 5
   \<and> job_duration (last (fs_fixed_jobs 125)) < 60"
proof -
  have m: "py_mod 125 60 = 5" by (simp add: py_mod_def)
  have h: "(0::real) < 125" "py_mod 125 60 \<noteq> 0" by (simp_all add: m)
  from fixed_last_segment [OF h] show ?thesis by (simp add: m)
qed

text \<open>
  Claim C2 as stated fails for Yt_Split_Portrait.py: for the 125-second input the
  remainder is 5, but the last job has length 60 and the lengths are 60, 60, 60.
\<close>

theorem portrait_last_counterexample:
  "py_mod 125 60 = 5
   \<and> job_duration (last (pt_fixed_jobs 125)) = 60
   \<and> map job_duration (pt_fixed_jobs 125) = [60, 60, 60]"
  by code_simp

section \<open>Claims about the time parser\<close>



section \<open>Claims about custom cut points\<close>






text \<open>
  Claim C8 (as amended).  For every list of parsed cut values and every duration
  \<open>D > 0\<close>, the list used for segmentation is ascending, starts with 0 and ends with
  \<open>D\<close>, and apart from these two boundary points holds exactly the parsed values
  strictly between 0 and \<open>D\<close>, each as often as it was given: the list is not
  deduplicated.
\<close>

theorem cut_points_construction:
  assumes "0 < D"
  shows "sorted (cut_points D ps)
       \<and> hd (cut_points D ps) = 0 \<and> last (cut_points D ps) = D
       \<and> set (cut_points D ps) = {0, D} \<union> {x. Fin x \<in> set ps \<and> 0 < x \<and> x < D}
       \<and> (\<forall>x. 0 < x \<and> x < D \<longrightarrow> count_list (cut_points D ps) x = count_list ps (Fin x))"
  using sorted_cut_points [of D ps] hd_cut_points [OF assms, of ps]
    last_cut_points [OF assms, of ps] set_cut_points [of D ps] count_cut_points [of _ D ps]
  by simp

text \<open>The statement of C8 at \<open>D = 100\<close> and the parsed values 150, 30, a non-finite one, 30.\<close>

theorem cut_points_construction_witness:
  "(0::real) < 100
   \<and> sorted (cut_points 100 [Fin 150, Fin 30, NonFinite, Fin 30])
   \<and> hd (cut_points 100 [Fin 150, Fin 30, NonFinite, Fin 30]) = 0
   \<and> last (cut_points 100 [Fin 150, Fin 30, NonFinite, Fin 30]) = 100
   \<and> count_list (cut_points 100 [Fin 150, Fin 30, NonFinite, Fin 30]) 30 = 2"
proof -
  have h: "(0::real) < 100" by simp
  from cut_points_construction [OF h, of "[Fin 150, Fin 30, NonFinite, Fin 30]"] h
  show ?thesis by simp
qed

text \<open>
  Claim C8 as stated fails: for the cut times "30" and "30" on a 100-second video the
  list is 0, 30, 30, 100, with the value 30 twice.
\<close>

theorem cut_points_duplicates_counterexample:
  "parse_split_times [''30'', ''30''] = Inr [Fin 30, Fin 30]
   \<and> cut_points 100 [Fin 30, Fin 30] = [0, 30, 30, 100]
   \<and> \<not> distinct (cut_points 100 [Fin 30, Fin 30])"
proof -
  have "parse_split_times [''30'', ''30''] = Inr [Fin 30, Fin 30]" by code_simp
  moreover have "cut_points 100 [Fin 30, Fin 30] = [0, 30, 30, 100]" by (simp add: cut_points_def)
  ultimately show ?thesis by simp
qed

section \<open>Claims about the filter graph\<close>










section \<open>Outcomes of the two main functions\<close>


lemma started_nonempty: "js \<noteq> [] \<Longrightarrow> takeWhile P js @ take 1 (dropWhile P js) \<noteq> []"
  by (cases js) auto


lemma pt_main_custom:
  "ffmpeg_is_file w \<Longrightarrow> input_is_file w \<Longrightarrow> pt_split_option args \<noteq> ''60'' \<Longrightarrow>
   pt_main w args = pt_custom w args"
  by (simp add: pt_main_def)

lemma pt_main_fixed:
  "ffmpeg_is_file w \<Longrightarrow> input_is_file w \<Longrightarrow> pt_split_option args = ''60'' \<Longrightarrow>
   pt_main w args = pt_fixed w args"
  by (simp add: pt_main_def)



lemma pt_custom_no_probe:
  "pt_split_times args = Some ts \<Longrightarrow> ts \<noteq> [] \<Longrightarrow> parse_split_times ts = Inr ps \<Longrightarrow>
   probe w = None \<Longrightarrow> pt_custom w args = finished [ErrorGettingDuration] []"
  by (cases ts) (simp_all add: pt_custom_def get_video_duration_def)

lemma pt_custom_zero:
  "pt_split_times args = Some ts \<Longrightarrow> ts \<noteq> [] \<Longrightarrow> parse_split_times ts = Inr ps \<Longrightarrow>
   probe w = Some 0 \<Longrightarrow> pt_custom w args = finished [] []"
  by (cases ts) (simp_all add: pt_custom_def get_video_duration_def)

lemma pt_custom_no_segments:
  "pt_split_times args = Some ts \<Longrightarrow> ts \<noteq> [] \<Longrightarrow> parse_split_times ts = Inr ps \<Longrightarrow>
   probe w = Some d \<Longrightarrow> d \<noteq> 0 \<Longrightarrow> segments_of (cut_points d ps) = [] \<Longrightarrow>
   pt_custom w args = finished [NoValidSegments] []"
  by (cases ts) (simp_all add: pt_custom_def get_video_duration_def)

lemma pt_custom_runs:
  assumes "pt_split_times args = Some ts" and "ts \<noteq> []" and "parse_split_times ts = Inr ps"
    and "probe w = Some d" and "d \<noteq> 0"
  shows "encode_jobs (invoked (pt_custom w args))
           = takeWhile (encode_ok w) (custom_jobs (segments_of (cut_points d ps)))
             @ take 1 (dropWhile (encode_ok w) (custom_jobs (segments_of (cut_points d ps))))"
proof (cases "segments_of (cut_points d ps) = []")
  case True
  with assms show ?thesis
    by (simp add: pt_custom_no_segments finished_def custom_jobs_def)
next
  case False
  obtain t ts' where ts: "ts = t # ts'" using assms(2) by (cases ts) auto
  obtain ms runs ok where r:
    "run_until_failure (\<lambda>j. [ProcessingSegment (job_index j)]) (encode_ok w)
       (vf_option (build_aspect_filter (pt_aspect args)))
       (custom_jobs (segments_of (cut_points d ps))) = (ms, runs, ok)"
    by (cases "run_until_failure (\<lambda>j. [ProcessingSegment (job_index j)]) (encode_ok w)
       (vf_option (build_aspect_filter (pt_aspect args)))
       (custom_jobs (segments_of (cut_points d ps)))") auto
  from run_until_failure_runs [of "\<lambda>j. [ProcessingSegment (job_index j)]" "encode_ok w"
      "vf_option (build_aspect_filter (pt_aspect args))" "custom_jobs (segments_of (cut_points d ps))"] r
  have "runs = map (\<lambda>j. Encode j (vf_option (build_aspect_filter (pt_aspect args))))
          (takeWhile (encode_ok w) (custom_jobs (segments_of (cut_points d ps)))
             @ take 1 (dropWhile (encode_ok w) (custom_jobs (segments_of (cut_points d ps)))))"
    by simp
  then have "encode_jobs runs = takeWhile (encode_ok w) (custom_jobs (segments_of (cut_points d ps)))
             @ take 1 (dropWhile (encode_ok w) (custom_jobs (segments_of (cut_points d ps))))"
    by (simp only: encode_jobs_map)
  moreover have "invoked (pt_custom w args) = runs"
    using assms False r unfolding ts
    by (simp add: pt_custom_def get_video_duration_def finished_def Let_def)
  ultimately show ?thesis by simp
qed

lemma pt_fixed_runs:
  assumes "pt_aspect args \<noteq> ''original''" and "probe w = Some d" and "d \<noteq> 0"
  shows "encode_jobs (invoked (pt_fixed w args))
           = takeWhile (encode_ok w) (pt_fixed_jobs d)
             @ take 1 (dropWhile (encode_ok w) (pt_fixed_jobs d))"
proof -
  obtain ms runs ok where r:
    "run_until_failure (\<lambda>j. []) (encode_ok w)
       (vf_option (build_aspect_filter (pt_aspect args))) (pt_fixed_jobs d) = (ms, runs, ok)"
    by (cases "run_until_failure (\<lambda>j. []) (encode_ok w)
       (vf_option (build_aspect_filter (pt_aspect args))) (pt_fixed_jobs d)") auto
  from run_until_failure_runs [of "\<lambda>j. []" "encode_ok w"
      "vf_option (build_aspect_filter (pt_aspect args))" "pt_fixed_jobs d"] r
  have "runs = map (\<lambda>j. Encode j (vf_option (build_aspect_filter (pt_aspect args))))
          (takeWhile (encode_ok w) (pt_fixed_jobs d) @ take 1 (dropWhile (encode_ok w) (pt_fixed_jobs d)))"
    by simp
  then have "encode_jobs runs = takeWhile (encode_ok w) (pt_fixed_jobs d)
             @ take 1 (dropWhile (encode_ok w) (pt_fixed_jobs d))"
    by (simp only: encode_jobs_map)
  moreover have "invoked (pt_fixed w args) = runs"
    using assms r by (simp add: pt_fixed_def get_video_duration_def finished_def)
  ultimately show ?thesis by simp
qed

lemma fs_main_fixed_runs:
  assumes "ffmpeg_is_file w" and "ffprobe_is_file w" and "input_is_file w"
    and "fs_split_option args = ''60''" and "probe w = Some d"
  shows "encode_jobs (invoked (fs_main w args)) = fs_fixed_jobs d"
    and "printed (fs_main w args) \<noteq> [] \<and> last (printed (fs_main w args)) = ProcessingCompleted"
proof -
  obtain ms runs where r:
    "run_all (segment_count d) (encode_ok w) (vf_option (build_filters args)) (fs_fixed_jobs d)
       = (ms, runs)"
    by (cases "run_all (segment_count d) (encode_ok w) (vf_option (build_filters args))
                 (fs_fixed_jobs d)") auto
  from run_all_runs [of "segment_count d" "encode_ok w" "vf_option (build_filters args)"
      "fs_fixed_jobs d"] r
  have "runs = map (\<lambda>j. Encode j (vf_option (build_filters args))) (fs_fixed_jobs d)" by simp
  then have "encode_jobs runs = fs_fixed_jobs d" by (simp only: encode_jobs_map)
  moreover have "fs_main w args
      = finished ([OutputDirectory, Processing60] @ ms @ [ProcessingCompleted]) runs"
    using assms r by (simp add: fs_main_def get_video_duration_def)
  ultimately show "encode_jobs (invoked (fs_main w args)) = fs_fixed_jobs d"
    and "printed (fs_main w args) \<noteq> [] \<and> last (printed (fs_main w args)) = ProcessingCompleted"
    by (simp_all add: finished_def)
qed

section \<open>Claims about failures and the abort policy\<close>



lemma parse_one_30: "parse_split_times [''30''] = Inr [Fin 30]"
  by code_simp

lemma pt_jobs_125:
  "pt_fixed_jobs 125 =
     [\<lparr>job_index = 1, job_start = 0, job_duration = 60\<rparr>,
      \<lparr>job_index = 2, job_start = 60, job_duration = 60\<rparr>,
      \<lparr>job_index = 3, job_start = 120, job_duration = 60\<rparr>]"
  by code_simp

lemma fs_jobs_125:
  "fs_fixed_jobs 125 =
     [\<lparr>job_index = 1, job_start = 0, job_duration = 60\<rparr>,
      \<lparr>job_index = 2, job_start = 60, job_duration = 60\<rparr>,
      \<lparr>job_index = 3, job_start = 120, job_duration = 5\<rparr>]"
  by code_simp

lemma parse_30_60: "parse_split_times [''30'', ''60''] = Inr [Fin 30, Fin 60]"
  by code_simp

lemma custom_jobs_30_60:
  "custom_jobs (segments_of (cut_points 125 [Fin 30, Fin 60])) =
     [\<lparr>job_index = 1, job_start = 0, job_duration = 30\<rparr>,
      \<lparr>job_index = 2, job_start = 30, job_duration = 30\<rparr>,
      \<lparr>job_index = 3, job_start = 60, job_duration = 65\<rparr>]"
  by code_simp

lemma fs_fixed_jobs_zero: "fs_fixed_jobs 0 = []"
  by (simp add: fs_fixed_jobs_def py_range_def segment_count_ceiling)

lemma pt_fixed_jobs_nonempty: "0 < d \<Longrightarrow> pt_fixed_jobs d \<noteq> []"
  using last_window(1) [of d "nat \<lceil>d / 60\<rceil>"] length_pt_fixed_jobs [of d] by auto




text \<open>
  Claim C7 (as amended).  With the binaries and the input file present and a probed
  duration other than zero: in custom mode and in fixed-window mode of
  Yt_Split_Portrait.py (re-encode path) the encoder is run on the planned jobs in order
  up to and including the first one that fails, and on none after it; in fixed-window
  mode of Yt_Split_FullScreen.py the encoder is run on every planned job, whether
  earlier jobs failed or not.
\<close>

theorem abort_policy:
  assumes "ffmpeg_is_file w" and "ffprobe_is_file w" and "input_is_file w"
    and "probe w = Some d" and "d \<noteq> 0"
  shows "(pt_split_option pa \<noteq> ''60'' \<and> pt_split_times pa = Some ts \<and> ts \<noteq> []
            \<and> parse_split_times ts = Inr ps \<longrightarrow>
          encode_jobs (invoked (pt_main w pa))
            = takeWhile (encode_ok w) (custom_jobs (segments_of (cut_points d ps)))
              @ take 1 (dropWhile (encode_ok w) (custom_jobs (segments_of (cut_points d ps)))))
       \<and> (pt_split_option pa = ''60'' \<and> pt_aspect pa \<noteq> ''original'' \<longrightarrow>
          encode_jobs (invoked (pt_main w pa))
            = takeWhile (encode_ok w) (pt_fixed_jobs d)
              @ take 1 (dropWhile (encode_ok w) (pt_fixed_jobs d)))
       \<and> (fs_split_option fa = ''60'' \<longrightarrow>
          encode_jobs (invoked (fs_main w fa)) = fs_fixed_jobs d)"
proof (intro conjI impI)
  assume a: "pt_split_option pa \<noteq> ''60'' \<and> pt_split_times pa = Some ts \<and> ts \<noteq> []
            \<and> parse_split_times ts = Inr ps"
  then have "pt_main w pa = pt_custom w pa" using assms(1,3) by (simp add: pt_main_custom)
  moreover from a have "pt_split_times pa = Some ts" "ts \<noteq> []" "parse_split_times ts = Inr ps"
    by simp_all
  from pt_custom_runs [OF this assms(4,5)]
  have "encode_jobs (invoked (pt_custom w pa))
            = takeWhile (encode_ok w) (custom_jobs (segments_of (cut_points d ps)))
              @ take 1 (dropWhile (encode_ok w) (custom_jobs (segments_of (cut_points d ps))))" .
  ultimately show "encode_jobs (invoked (pt_main w pa))
            = takeWhile (encode_ok w) (custom_jobs (segments_of (cut_points d ps)))
              @ take 1 (dropWhile (encode_ok w) (custom_jobs (segments_of (cut_points d ps))))"
    by simp
next
  assume a: "pt_split_option pa = ''60'' \<and> pt_aspect pa \<noteq> ''original''"
  then have "pt_main w pa = pt_fixed w pa" using assms(1,3) by (simp add: pt_main_fixed)
  moreover from a have "pt_aspect pa \<noteq> ''original''" by simp
  from pt_fixed_runs [OF this assms(4,5)]
  have "encode_jobs (invoked (pt_fixed w pa))
            = takeWhile (encode_ok w) (pt_fixed_jobs d)
              @ take 1 (dropWhile (encode_ok w) (pt_fixed_jobs d))" .
  ultimately show "encode_jobs (invoked (pt_main w pa))
            = takeWhile (encode_ok w) (pt_fixed_jobs d)
              @ take 1 (dropWhile (encode_ok w) (pt_fixed_jobs d))"
    by simp
next
  assume "fs_split_option fa = ''60''"
  from fs_main_fixed_runs(1) [OF assms(1-3) this assms(4)]
  show "encode_jobs (invoked (fs_main w fa)) = fs_fixed_jobs d" .
qed

text \<open>
  The statement of C7 on a 125-second video where exactly the job numbered 2 fails: both
  Portrait modes run jobs 1 and 2 only, the FullScreen script runs jobs 1, 2 and 3.
\<close>

theorem abort_policy_witness:
  "ffmpeg_is_file (ready_world (Some 125) (\<lambda>j. job_index j \<noteq> 2))
   \<and> ffprobe_is_file (ready_world (Some 125) (\<lambda>j. job_index j \<noteq> 2))
   \<and> input_is_file (ready_world (Some 125) (\<lambda>j. job_index j \<noteq> 2))
   \<and> probe (ready_world (Some 125) (\<lambda>j. job_index j \<noteq> 2)) = Some 125
   \<and> map job_index (encode_jobs (invoked (pt_main (ready_world (Some 125) (\<lambda>j. job_index j \<noteq> 2))
         (pt_command ''custom'' (Some [''30'', ''60'']) ''portrait'')))) = [1, 2]
   \<and> map job_index (encode_jobs (invoked (pt_main (ready_world (Some 125) (\<lambda>j. job_index j \<noteq> 2))
         (pt_command ''60'' None ''portrait'')))) = [1, 2]
   \<and> map job_index (encode_jobs (invoked (fs_main (ready_world (Some 125) (\<lambda>j. job_index j \<noteq> 2))
         (fs_command ''60'' ''portrait'' ''pad'' None)))) = [1, 2, 3]"
proof -
  let ?w = "ready_world (Some 125) (\<lambda>j. job_index j \<noteq> 2)"
  let ?pc = "pt_command ''custom'' (Some [''30'', ''60'']) ''portrait''"
  let ?pf = "pt_command ''60'' None ''portrait''"
  let ?fa = "fs_command ''60'' ''portrait'' ''pad'' None"
  have h: "ffmpeg_is_file ?w" "ffprobe_is_file ?w" "input_is_file ?w" "probe ?w = Some 125"
    "(125::real) \<noteq> 0"
    by (simp_all add: ready_world_def)
  have enc: "encode_ok ?w = (\<lambda>j. job_index j \<noteq> 2)" by (simp add: ready_world_def)
  have c: "pt_split_option ?pc \<noteq> ''60'' \<and> pt_split_times ?pc = Some [''30'', ''60'']
           \<and> [''30'', ''60''] \<noteq> [] \<and> parse_split_times [''30'', ''60''] = Inr [Fin 30, Fin 60]"
    by (simp add: pt_command_def parse_30_60 del: parse_split_times.simps)
  have f: "pt_split_option ?pf = ''60'' \<and> pt_aspect ?pf \<noteq> ''original''"
    by (simp add: pt_command_def)
  have g: "fs_split_option ?fa = ''60''" by (simp add: fs_command_def)
  from abort_policy [OF h, of ?pc "[''30'', ''60'']" "[Fin 30, Fin 60]" ?fa] c g
  have 1: "encode_jobs (invoked (pt_main ?w ?pc))
            = takeWhile (encode_ok ?w) (custom_jobs (segments_of (cut_points 125 [Fin 30, Fin 60])))
              @ take 1 (dropWhile (encode_ok ?w)
                         (custom_jobs (segments_of (cut_points 125 [Fin 30, Fin 60]))))"
    and 3: "encode_jobs (invoked (fs_main ?w ?fa)) = fs_fixed_jobs 125"
    by blast+
  from abort_policy [OF h, of ?pf "[]" "[]" ?fa] f
  have 2: "encode_jobs (invoked (pt_main ?w ?pf))
            = takeWhile (encode_ok ?w) (pt_fixed_jobs 125)
              @ take 1 (dropWhile (encode_ok ?w) (pt_fixed_jobs 125))"
    by blast
  have "map job_index (encode_jobs (invoked (pt_main ?w ?pc))) = [1, 2]"
    unfolding 1 enc custom_jobs_30_60 by simp
  moreover have "map job_index (encode_jobs (invoked (pt_main ?w ?pf))) = [1, 2]"
    unfolding 2 enc pt_jobs_125 by simp
  moreover have "map job_index (encode_jobs (invoked (fs_main ?w ?fa))) = [1, 2, 3]"
    unfolding 3 fs_jobs_125 by simp
  ultimately show ?thesis using h by blast
qed

text \<open>
  Claim C7 as stated fails for Yt_Split_FullScreen.py: on a 125-second video where the
  second job fails, the third job is still run.
\<close>

theorem fullscreen_continues_counterexample:
  "\<not> encode_ok (ready_world (Some 125) (\<lambda>j. job_index j \<noteq> 2)) (fs_fixed_jobs 125 ! 1)
   \<and> map job_index (encode_jobs (invoked (fs_main (ready_world (Some 125) (\<lambda>j. job_index j \<noteq> 2))
         (fs_command ''60'' ''portrait'' ''pad'' None)))) = [1, 2, 3]"
proof -
  let ?w = "ready_world (Some 125) (\<lambda>j. job_index j \<noteq> 2)"
  let ?fa = "fs_command ''60'' ''portrait'' ''pad'' None"
  have h: "ffmpeg_is_file ?w" "ffprobe_is_file ?w" "input_is_file ?w"
    "fs_split_option ?fa = ''60''" "probe ?w = Some 125"
    by (simp_all add: ready_world_def fs_command_def)
  have "\<not> encode_ok ?w (fs_fixed_jobs 125 ! 1)"
    unfolding fs_jobs_125 by (simp add: ready_world_def)
  moreover from fs_main_fixed_runs(1) [OF h]
  have "map job_index (encode_jobs (invoked (fs_main ?w ?fa))) = [1, 2, 3]"
    by (simp add: fs_jobs_125)
  ultimately show ?thesis by blast
qed

text \<open>
  Claim C9.  In Yt_Split_FullScreen.py, with both binaries and the input file present,
  \<^verbatim>\<open>--split-option custom\<close> runs no encode job, prints only the output directory
  line, which is no error message, and ends with exit status 0.
\<close>

theorem fullscreen_custom_noop:
  assumes "ffmpeg_is_file w" and "ffprobe_is_file w" and "input_is_file w"
    and "fs_split_option args = ''custom''"
  shows "fs_main w args = \<lparr>printed = [OutputDirectory], invoked = [], exit_code = 0\<rparr>
       \<and> encode_jobs (invoked (fs_main w args)) = []
       \<and> (\<forall>m\<in>set (printed (fs_main w args)). \<not> is_error m)"
  using assms by (simp add: fs_main_def finished_def)

text \<open>
  The statement of C9 at a command line with \<^verbatim>\<open>--split-times 30 60\<close>.
\<close>

theorem fullscreen_custom_noop_witness:
  "ffmpeg_is_file (ready_world (Some 100) (\<lambda>j. True))
   \<and> ffprobe_is_file (ready_world (Some 100) (\<lambda>j. True))
   \<and> input_is_file (ready_world (Some 100) (\<lambda>j. True))
   \<and> fs_split_option ((fs_command ''custom'' ''portrait'' ''pad'' None)
        \<lparr>fs_split_times := Some [''30'', ''60'']\<rparr>) = ''custom''
   \<and> fs_main (ready_world (Some 100) (\<lambda>j. True))
        ((fs_command ''custom'' ''portrait'' ''pad'' None)\<lparr>fs_split_times := Some [''30'', ''60'']\<rparr>)
       = \<lparr>printed = [OutputDirectory], invoked = [], exit_code = 0\<rparr>"
proof -
  let ?w = "ready_world (Some 100) (\<lambda>j. True)"
  let ?fa = "(fs_command ''custom'' ''portrait'' ''pad'' None)\<lparr>fs_split_times := Some [''30'', ''60'']\<rparr>"
  have h: "ffmpeg_is_file ?w" "ffprobe_is_file ?w" "input_is_file ?w"
    "fs_split_option ?fa = ''custom''"
    by (simp_all add: ready_world_def fs_command_def)
  from fullscreen_custom_noop [OF h] h show ?thesis by blast
qed

text \<open>
  Claim C10.  With the binaries and the input file present: in Yt_Split_Portrait.py a
  probed duration of 0 ends the run at the duration check with no job, in fixed-window
  mode (re-encode path) and in custom mode alike, exactly as a failed probe does apart
  from the error line that the probe itself prints; a positive duration passes the
  check and at least one job is run.  In Yt_Split_FullScreen.py only a failed probe ends
  the run at the check; with any probed value, 0 included, the loop is reached and the
  run ends with the line "Processing completed".
\<close>

theorem zero_duration:
  assumes "ffmpeg_is_file w" and "ffprobe_is_file w" and "input_is_file w"
  shows "(pt_split_option pa = ''60'' \<and> pt_aspect pa \<noteq> ''original'' \<longrightarrow>
            pt_main (w\<lparr>probe := Some 0\<rparr>) pa = finished [Processing60] []
          \<and> pt_main (w\<lparr>probe := None\<rparr>) pa = finished [Processing60, ErrorGettingDuration] []
          \<and> (\<forall>d. 0 < d \<longrightarrow> encode_jobs (invoked (pt_main (w\<lparr>probe := Some d\<rparr>) pa)) \<noteq> []))
       \<and> (pt_split_option pa \<noteq> ''60'' \<and> pt_split_times pa = Some ts \<and> ts \<noteq> []
            \<and> parse_split_times ts = Inr ps \<longrightarrow>
            pt_main (w\<lparr>probe := Some 0\<rparr>) pa = finished [] []
          \<and> pt_main (w\<lparr>probe := None\<rparr>) pa = finished [ErrorGettingDuration] [])
       \<and> (fs_split_option fa = ''60'' \<longrightarrow>
            fs_main (w\<lparr>probe := Some 0\<rparr>) fa
              = finished [OutputDirectory, Processing60, ProcessingCompleted] []
          \<and> fs_main (w\<lparr>probe := None\<rparr>) fa
              = finished [OutputDirectory, Processing60, ErrorGettingDuration] []
          \<and> (\<forall>d. last (printed (fs_main (w\<lparr>probe := Some d\<rparr>) fa)) = ProcessingCompleted))"
proof (intro conjI impI allI)
  assume a: "pt_split_option pa = ''60'' \<and> pt_aspect pa \<noteq> ''original''"
  with assms show "pt_main (w\<lparr>probe := Some 0\<rparr>) pa = finished [Processing60] []"
    by (simp add: pt_main_def pt_fixed_def get_video_duration_def)
  from a assms
  show "pt_main (w\<lparr>probe := None\<rparr>) pa = finished [Processing60, ErrorGettingDuration] []"
    by (simp add: pt_main_def pt_fixed_def get_video_duration_def)
  fix d :: real
  assume d: "0 < d"
  from a assms have "pt_main (w\<lparr>probe := Some d\<rparr>) pa = pt_fixed (w\<lparr>probe := Some d\<rparr>) pa"
    by (simp add: pt_main_def)
  moreover have "encode_jobs (invoked (pt_fixed (w\<lparr>probe := Some d\<rparr>) pa))
      = takeWhile (encode_ok (w\<lparr>probe := Some d\<rparr>)) (pt_fixed_jobs d)
        @ take 1 (dropWhile (encode_ok (w\<lparr>probe := Some d\<rparr>)) (pt_fixed_jobs d))"
    using a d by (intro pt_fixed_runs) simp_all
  ultimately show "encode_jobs (invoked (pt_main (w\<lparr>probe := Some d\<rparr>) pa)) \<noteq> []"
    using started_nonempty [OF pt_fixed_jobs_nonempty [OF d]] by simp
next
  assume a: "pt_split_option pa \<noteq> ''60'' \<and> pt_split_times pa = Some ts \<and> ts \<noteq> []
            \<and> parse_split_times ts = Inr ps"
  then have t: "pt_split_times pa = Some ts" "ts \<noteq> []" "parse_split_times ts = Inr ps"
    by simp_all
  from a assms have m: "\<And>p. pt_main (w\<lparr>probe := p\<rparr>) pa = pt_custom (w\<lparr>probe := p\<rparr>) pa"
    by (simp add: pt_main_def)
  show "pt_main (w\<lparr>probe := Some 0\<rparr>) pa = finished [] []"
    unfolding m by (rule pt_custom_zero [OF t]) simp
  show "pt_main (w\<lparr>probe := None\<rparr>) pa = finished [ErrorGettingDuration] []"
    unfolding m by (rule pt_custom_no_probe [OF t]) simp
next
  assume a: "fs_split_option fa = ''60''"
  with assms show "fs_main (w\<lparr>probe := Some 0\<rparr>) fa
              = finished [OutputDirectory, Processing60, ProcessingCompleted] []"
    by (simp add: fs_main_def get_video_duration_def fs_fixed_jobs_zero)
  from a assms show "fs_main (w\<lparr>probe := None\<rparr>) fa
              = finished [OutputDirectory, Processing60, ErrorGettingDuration] []"
    by (simp add: fs_main_def get_video_duration_def)
  fix d :: real
  have "ffmpeg_is_file (w\<lparr>probe := Some d\<rparr>)" "ffprobe_is_file (w\<lparr>probe := Some d\<rparr>)"
    "input_is_file (w\<lparr>probe := Some d\<rparr>)" "probe (w\<lparr>probe := Some d\<rparr>) = Some d"
    using assms by simp_all
  from fs_main_fixed_runs(2) [OF this(1-3) a this(4)]
  show "last (printed (fs_main (w\<lparr>probe := Some d\<rparr>) fa)) = ProcessingCompleted" by simp
qed

text \<open>
  The statement of C10 at a fixed-window and a custom command line of the Portrait script
  and a fixed-window command line of the FullScreen script.
\<close>

theorem zero_duration_witness:
  "ffmpeg_is_file (ready_world (Some 100) (\<lambda>j. True))
   \<and> ffprobe_is_file (ready_world (Some 100) (\<lambda>j. True))
   \<and> input_is_file (ready_world (Some 100) (\<lambda>j. True))
   \<and> pt_split_option (pt_command ''60'' None ''portrait'') = ''60''
   \<and> pt_aspect (pt_command ''60'' None ''portrait'') \<noteq> ''original''
   \<and> pt_main ((ready_world (Some 100) (\<lambda>j. True))\<lparr>probe := Some 0\<rparr>)
        (pt_command ''60'' None ''portrait'') = finished [Processing60] []
   \<and> encode_jobs (invoked (pt_main ((ready_world (Some 100) (\<lambda>j. True))\<lparr>probe := Some 100\<rparr>)
        (pt_command ''60'' None ''portrait''))) \<noteq> []
   \<and> pt_main ((ready_world (Some 100) (\<lambda>j. True))\<lparr>probe := Some 0\<rparr>)
        (pt_command ''custom'' (Some [''30'']) ''portrait'') = finished [] []
   \<and> fs_split_option (fs_command ''60'' ''portrait'' ''pad'' None) = ''60''
   \<and> fs_main ((ready_world (Some 100) (\<lambda>j. True))\<lparr>probe := Some 0\<rparr>)
        (fs_command ''60'' ''portrait'' ''pad'' None)
       = finished [OutputDirectory, Processing60, ProcessingCompleted] []"
proof -
  let ?w = "ready_world (Some 100) (\<lambda>j. True)"
  let ?pf = "pt_command ''60'' None ''portrait''"
  let ?pc = "pt_command ''custom'' (Some [''30'']) ''portrait''"
  let ?fa = "fs_command ''60'' ''portrait'' ''pad'' None"
  have h: "ffmpeg_is_file ?w" "ffprobe_is_file ?w" "input_is_file ?w"
    by (simp_all add: ready_world_def)
  have f: "pt_split_option ?pf = ''60''" "pt_aspect ?pf \<noteq> ''original''"
    by (simp_all add: pt_command_def)
  have c: "pt_split_option ?pc \<noteq> ''60'' \<and> pt_split_times ?pc = Some [''30'']
           \<and> [''30''] \<noteq> [] \<and> parse_split_times [''30''] = Inr [Fin 30]"
    by (simp add: pt_command_def parse_one_30 del: parse_split_times.simps)
  have g: "fs_split_option ?fa = ''60''" by (simp add: fs_command_def)
  have pos: "(0::real) < 100" by simp
  from zero_duration [OF h, of ?pf "[]" "[]" ?fa] f g pos
  have 1: "pt_main (?w\<lparr>probe := Some 0\<rparr>) ?pf = finished [Processing60] []"
    and 2: "encode_jobs (invoked (pt_main (?w\<lparr>probe := Some 100\<rparr>) ?pf)) \<noteq> []"
    and 3: "fs_main (?w\<lparr>probe := Some 0\<rparr>) ?fa
       = finished [OutputDirectory, Processing60, ProcessingCompleted] []"
    by blast+
  from zero_duration [OF h, of ?pc "[''30'']" "[Fin 30]" ?fa] c
  have 4: "pt_main (?w\<lparr>probe := Some 0\<rparr>) ?pc = finished [] []"
    by blast
  from h f 1 2 4 g 3 show ?thesis by blast
qed

end
